theory Spec2Isabelle
  imports Main
begin

section \<open>The controller builder of controller-runtime (pkg/builder/build.go)\<close>

text \<open>
  The builder accumulates what a controller needs and, in \<open>Build\<close>, calls the surrounding
  framework: config discovery, the manager and controller constructors, GVK resolution, the
  webhook server and the controller's \<open>Watch\<close>. Those collaborators are not part of the file;
  they are the fields of an environment \<open>env\<close>. Every call made to them is appended to a
  log together with the error it returned, and the result of a call may depend on the log of
  the calls made before it, so a collaborator may answer the same request differently the
  second time.
\<close>

subsection \<open>Values of the framework\<close>

datatype error = Error string

datatype rest_config = Config string

datatype scheme = Scheme string

datatype reconciler = Reconciler string

datatype controller = Controller string

datatype webhook = Webhook string

datatype predicate = Predicate string

text \<open>
  A \<open>runtime.Object\<close>: the Go type behind the interface value, and whether that type
  implements \<open>admission.Defaulter\<close> and \<open>admission.Validator\<close> (what the two type
  assertions of \<open>doWebhook\<close> test). A nil interface value is \<open>None\<close>.
\<close>

record runtime_object =
  typeName :: string
  implementsDefaulter :: bool
  implementsValidator :: bool

record GroupVersionKind =
  Group :: string
  Version :: string
  Kind :: string

text \<open>A manager, with what its getters \<open>GetConfig()\<close> and \<open>GetScheme()\<close> return.\<close>

record manager =
  managerName :: string
  GetConfig :: "rest_config option"
  GetScheme :: scheme

text \<open>
  \<open>source.Source\<close> and \<open>handler.EventHandler\<close> values: the ones \<open>doWatch\<close> constructs, and
  any other value a caller hands to \<open>Watches\<close>.
\<close>

datatype source = source_Kind "runtime_object option" | OtherSource string

datatype handler =
    EnqueueRequestForObject
  | EnqueueRequestForOwner "runtime_object option" bool
  | OtherHandler string

record watchRequest =
  src :: source
  eventhandler :: handler

subsection \<open>The builder\<close>

record Builder =
  apiType :: "runtime_object option"
  mgr :: "manager option"
  predicates :: "predicate list"
  managedObjects :: "runtime_object option list"
  watchRequest :: "watchRequest list"
  config :: "rest_config option"
  ctrl :: "controller option"

subsection \<open>Calls to the framework\<close>

datatype call =
    Call_getConfig
  | Call_newManager "rest_config option"
  | Call_getGvk "runtime_object option" scheme
  | Call_newController string manager reconciler
  | Call_GVKForObject "runtime_object option" scheme
  | Call_Register manager string webhook
  | Call_Watch controller source handler "predicate list"

type_synonym log = "(call \<times> error option) list"

text \<open>
  The package variables \<open>getConfig\<close>, \<open>newController\<close>, \<open>newManager\<close> and \<open>getGvk\<close>, the
  function \<open>apiutil.GVKForObject\<close> that \<open>doWebhook\<close> calls directly, the two webhook
  constructors of package admission, and the controller's \<open>Watch\<close>. A Go function returning
  \<open>(value, error)\<close> returns a pair here, either part of which may be nil.
\<close>

record env =
  getConfig :: "log \<Rightarrow> rest_config option \<times> error option"
  newManager :: "log \<Rightarrow> rest_config option \<Rightarrow> manager option \<times> error option"
  getGvk :: "log \<Rightarrow> runtime_object option \<Rightarrow> scheme \<Rightarrow> GroupVersionKind \<times> error option"
  newController :: "log \<Rightarrow> string \<Rightarrow> manager \<Rightarrow> reconciler \<Rightarrow> controller option \<times> error option"
  GVKForObject :: "log \<Rightarrow> runtime_object option \<Rightarrow> scheme \<Rightarrow> GroupVersionKind \<times> error option"
  DefaultingWebhookFor :: "runtime_object \<Rightarrow> webhook option"
  ValidatingWebhookFor :: "runtime_object \<Rightarrow> webhook option"
  Watch :: "log \<Rightarrow> controller \<Rightarrow> source \<Rightarrow> handler \<Rightarrow> predicate list \<Rightarrow> error option"

text \<open>A call on a nil interface value panics.\<close>

datatype 'a outcome = Return 'a | Panic

subsection \<open>Strings\<close>

text \<open>
  \<open>strings.ToLower\<close> on the bytes of an ASCII string: the letters A to Z move to a to z,
  every other byte stays.
\<close>

definition lower_char :: "char \<Rightarrow> char" where
  "lower_char c =
     (if (65::nat) \<le> of_char c \<and> (of_char c :: nat) \<le> 90
      then char_of ((of_char c :: nat) + 32) else c)"

definition ToLower :: "string \<Rightarrow> string" where
  "ToLower s = map lower_char s"

text \<open>\<open>strings.Replace(s, ".", "-", -1)\<close>: every dot becomes a hyphen.\<close>

definition Replace_dots :: "string \<Rightarrow> string" where
  "Replace_dots s = map (\<lambda>c. if c = CHR ''.'' then CHR ''-'' else c) s"

subsection \<open>Constructors and setters\<close>

definition SimpleController :: Builder where
  "SimpleController =
     \<lparr>apiType = None, mgr = None, predicates = [], managedObjects = [], watchRequest = [],
      config = None, ctrl = None\<rparr>"

definition For :: "Builder \<Rightarrow> runtime_object option \<Rightarrow> Builder" where
  "For blder a = blder\<lparr>apiType := a\<rparr>"

definition ForType :: "Builder \<Rightarrow> runtime_object option \<Rightarrow> Builder" where
  "ForType blder a = For blder a"

definition Owns :: "Builder \<Rightarrow> runtime_object option \<Rightarrow> Builder" where
  "Owns blder a = blder\<lparr>managedObjects := managedObjects blder @ [a]\<rparr>"

definition Watches :: "Builder \<Rightarrow> source \<Rightarrow> handler \<Rightarrow> Builder" where
  "Watches blder s h =
     blder\<lparr>watchRequest := watchRequest blder @ [\<lparr>src = s, eventhandler = h\<rparr>]\<rparr>"

definition WithConfig :: "Builder \<Rightarrow> rest_config option \<Rightarrow> Builder" where
  "WithConfig blder c = blder\<lparr>config := c\<rparr>"

definition WithManager :: "Builder \<Rightarrow> manager option \<Rightarrow> Builder" where
  "WithManager blder m = blder\<lparr>mgr := m\<rparr>"

definition WithEventFilter :: "Builder \<Rightarrow> predicate \<Rightarrow> Builder" where
  "WithEventFilter blder p = blder\<lparr>predicates := predicates blder @ [p]\<rparr>"

definition ControllerManagedBy :: "manager option \<Rightarrow> Builder" where
  "ControllerManagedBy m = WithManager SimpleController m"

subsection \<open>The setters on a pointer receiver\<close>

text \<open>
  Every setter is a method on \<open>*Builder\<close> that assigns through the receiver and ends with
  \<open>return blder\<close>. A heap is the list of the builders allocated so far and a \<open>*Builder\<close> is
  an index into it; an index outside the heap stands for the nil pointer, and assigning
  through it panics. Each method takes the heap and the receiver and returns the pointer it
  returns together with the heap it leaves. The functions above give the new value of the
  struct the receiver points to.
\<close>

type_synonym heap = "Builder list"

type_synonym ptr = nat

definition alloc_SimpleController :: "heap \<Rightarrow> ptr \<times> heap" where
  "alloc_SimpleController h = (length h, h @ [SimpleController])"

definition Builder_For :: "heap \<Rightarrow> ptr \<Rightarrow> runtime_object option \<Rightarrow> (ptr \<times> heap) outcome" where
  "Builder_For h blder a =
     (if blder < length h then Return (blder, h[blder := For (h ! blder) a]) else Panic)"

definition Builder_ForType :: "heap \<Rightarrow> ptr \<Rightarrow> runtime_object option \<Rightarrow> (ptr \<times> heap) outcome" where
  "Builder_ForType h blder a = Builder_For h blder a"

definition Builder_Owns :: "heap \<Rightarrow> ptr \<Rightarrow> runtime_object option \<Rightarrow> (ptr \<times> heap) outcome" where
  "Builder_Owns h blder a =
     (if blder < length h then Return (blder, h[blder := Owns (h ! blder) a]) else Panic)"

definition Builder_Watches :: "heap \<Rightarrow> ptr \<Rightarrow> source \<Rightarrow> handler \<Rightarrow> (ptr \<times> heap) outcome" where
  "Builder_Watches h blder s eh =
     (if blder < length h then Return (blder, h[blder := Watches (h ! blder) s eh]) else Panic)"

definition Builder_WithConfig :: "heap \<Rightarrow> ptr \<Rightarrow> rest_config option \<Rightarrow> (ptr \<times> heap) outcome" where
  "Builder_WithConfig h blder c =
     (if blder < length h then Return (blder, h[blder := WithConfig (h ! blder) c]) else Panic)"

definition Builder_WithManager :: "heap \<Rightarrow> ptr \<Rightarrow> manager option \<Rightarrow> (ptr \<times> heap) outcome" where
  "Builder_WithManager h blder m =
     (if blder < length h then Return (blder, h[blder := WithManager (h ! blder) m]) else Panic)"

definition Builder_WithEventFilter :: "heap \<Rightarrow> ptr \<Rightarrow> predicate \<Rightarrow> (ptr \<times> heap) outcome" where
  "Builder_WithEventFilter h blder p =
     (if blder < length h then Return (blder, h[blder := WithEventFilter (h ! blder) p]) else Panic)"

definition alloc_ControllerManagedBy :: "heap \<Rightarrow> manager option \<Rightarrow> (ptr \<times> heap) outcome" where
  "alloc_ControllerManagedBy h m =
     (case alloc_SimpleController h of (blder, h1) \<Rightarrow> Builder_WithManager h1 blder m)"

subsection \<open>The steps of Build\<close>

definition doConfig :: "env \<Rightarrow> Builder \<Rightarrow> log \<Rightarrow> error option \<times> Builder \<times> log" where
  "doConfig E blder t =
     (if config blder \<noteq> None then (None, blder, t)
      else case mgr blder of
        Some m \<Rightarrow> (None, blder\<lparr>config := GetConfig m\<rparr>, t)
      | None \<Rightarrow>
          (case getConfig E t of
             (c, err) \<Rightarrow> (err, blder\<lparr>config := c\<rparr>, t @ [(Call_getConfig, err)])))"

definition doManager :: "env \<Rightarrow> Builder \<Rightarrow> log \<Rightarrow> error option \<times> Builder \<times> log" where
  "doManager E blder t =
     (if mgr blder \<noteq> None then (None, blder, t)
      else case newManager E t (config blder) of
        (m, err) \<Rightarrow> (err, blder\<lparr>mgr := m\<rparr>, t @ [(Call_newManager (config blder), err)]))"

definition getControllerName ::
  "env \<Rightarrow> Builder \<Rightarrow> log \<Rightarrow> (string \<times> error option) outcome \<times> log" where
  "getControllerName E blder t =
     (case mgr blder of
        None \<Rightarrow> (Panic, t)
      | Some m \<Rightarrow>
          (case getGvk E t (apiType blder) (GetScheme m) of
             (gvk, Some err) \<Rightarrow>
               (Return ('''', Some err), t @ [(Call_getGvk (apiType blder) (GetScheme m), Some err)])
           | (gvk, None) \<Rightarrow>
               (Return (ToLower (Kind gvk) @ ''-application'', None),
                t @ [(Call_getGvk (apiType blder) (GetScheme m), None)])))"

definition doController ::
  "env \<Rightarrow> Builder \<Rightarrow> log \<Rightarrow> reconciler \<Rightarrow> error option outcome \<times> Builder \<times> log" where
  "doController E blder t r =
     (case getControllerName E blder t of
        (Panic, t1) \<Rightarrow> (Panic, blder, t1)
      | (Return (name, Some err), t1) \<Rightarrow> (Return (Some err), blder, t1)
      | (Return (name, None), t1) \<Rightarrow>
          (case mgr blder of
             None \<Rightarrow> (Panic, blder, t1)
           | Some m \<Rightarrow>
               (case newController E t1 name m r of
                  (c, err) \<Rightarrow>
                    (Return err, blder\<lparr>ctrl := c\<rparr>, t1 @ [(Call_newController name m r, err)]))))"

definition partialPath :: "GroupVersionKind \<Rightarrow> string" where
  "partialPath gvk =
     Replace_dots (Group gvk) @ ''-'' @ Version gvk @ ''-'' @ ToLower (Kind gvk)"

text \<open>The first type assertion of \<open>doWebhook\<close> and the block it guards.\<close>

definition registerDefaulting ::
  "env \<Rightarrow> Builder \<Rightarrow> manager \<Rightarrow> GroupVersionKind \<Rightarrow> log \<Rightarrow> log" where
  "registerDefaulting E blder m gvk t =
     (case apiType blder of
        None \<Rightarrow> t
      | Some defaulter \<Rightarrow>
          if implementsDefaulter defaulter then
            (case DefaultingWebhookFor E defaulter of
               None \<Rightarrow> t
             | Some mwh \<Rightarrow> t @ [(Call_Register m (''/mutate-'' @ partialPath gvk) mwh, None)])
          else t)"

text \<open>The second type assertion and its block.\<close>

definition registerValidating ::
  "env \<Rightarrow> Builder \<Rightarrow> manager \<Rightarrow> GroupVersionKind \<Rightarrow> log \<Rightarrow> log" where
  "registerValidating E blder m gvk t =
     (case apiType blder of
        None \<Rightarrow> t
      | Some validator \<Rightarrow>
          if implementsValidator validator then
            (case ValidatingWebhookFor E validator of
               None \<Rightarrow> t
             | Some vwh \<Rightarrow> t @ [(Call_Register m (''/validate-'' @ partialPath gvk) vwh, None)])
          else t)"

definition doWebhook :: "env \<Rightarrow> Builder \<Rightarrow> log \<Rightarrow> error option outcome \<times> Builder \<times> log" where
  "doWebhook E blder t =
     (case mgr blder of
        None \<Rightarrow> (Panic, blder, t)
      | Some m \<Rightarrow>
          (case GVKForObject E t (apiType blder) (GetScheme m) of
             (gvk, Some err) \<Rightarrow>
               (Return (Some err), blder,
                t @ [(Call_GVKForObject (apiType blder) (GetScheme m), Some err)])
           | (gvk, None) \<Rightarrow>
               (Return None, blder,
                registerValidating E blder m gvk
                  (registerDefaulting E blder m gvk
                     (t @ [(Call_GVKForObject (apiType blder) (GetScheme m), None)])))))"

text \<open>The loop of \<open>doWatch\<close> over the managed (owned) types.\<close>

fun watchManaged ::
  "env \<Rightarrow> Builder \<Rightarrow> controller \<Rightarrow> runtime_object option list \<Rightarrow> log \<Rightarrow> error option \<times> log" where
  "watchManaged E blder c [] t = (None, t)"
| "watchManaged E blder c (obj # objs) t =
     (case Watch E t c (source_Kind obj) (EnqueueRequestForOwner (apiType blder) True)
             (predicates blder) of
        Some err \<Rightarrow>
          (Some err,
           t @ [(Call_Watch c (source_Kind obj) (EnqueueRequestForOwner (apiType blder) True)
                   (predicates blder), Some err)])
      | None \<Rightarrow>
          watchManaged E blder c objs
            (t @ [(Call_Watch c (source_Kind obj) (EnqueueRequestForOwner (apiType blder) True)
                     (predicates blder), None)]))"

text \<open>The loop of \<open>doWatch\<close> over the watch requests.\<close>

fun watchRequests ::
  "env \<Rightarrow> Builder \<Rightarrow> controller \<Rightarrow> watchRequest list \<Rightarrow> log \<Rightarrow> error option \<times> log" where
  "watchRequests E blder c [] t = (None, t)"
| "watchRequests E blder c (w # ws) t =
     (case Watch E t c (src w) (eventhandler w) (predicates blder) of
        Some err \<Rightarrow>
          (Some err, t @ [(Call_Watch c (src w) (eventhandler w) (predicates blder), Some err)])
      | None \<Rightarrow>
          watchRequests E blder c ws
            (t @ [(Call_Watch c (src w) (eventhandler w) (predicates blder), None)]))"

definition doWatch :: "env \<Rightarrow> Builder \<Rightarrow> log \<Rightarrow> error option outcome \<times> Builder \<times> log" where
  "doWatch E blder t =
     (case ctrl blder of
        None \<Rightarrow> (Panic, blder, t)
      | Some c \<Rightarrow>
          (case Watch E t c (source_Kind (apiType blder)) EnqueueRequestForObject
                  (predicates blder) of
             Some err \<Rightarrow>
               (Return (Some err), blder,
                t @ [(Call_Watch c (source_Kind (apiType blder)) EnqueueRequestForObject
                        (predicates blder), Some err)])
           | None \<Rightarrow>
               (case watchManaged E blder c (managedObjects blder)
                       (t @ [(Call_Watch c (source_Kind (apiType blder)) EnqueueRequestForObject
                                (predicates blder), None)]) of
                  (Some err, t1) \<Rightarrow> (Return (Some err), blder, t1)
                | (None, t1) \<Rightarrow>
                    (case watchRequests E blder c (watchRequest blder) t1 of
                       (Some err, t2) \<Rightarrow> (Return (Some err), blder, t2)
                     | (None, t2) \<Rightarrow> (Return None, blder, t2)))))"

subsection \<open>Build and Complete\<close>

definition MissingReconciler :: error where
  "MissingReconciler = Error ''must provide a non-nil Reconciler''"

definition Build ::
  "env \<Rightarrow> Builder \<Rightarrow> reconciler option \<Rightarrow>
     (manager option \<times> error option) outcome \<times> Builder \<times> log" where
  "Build E blder r =
     (case r of
        None \<Rightarrow> (Return (None, Some MissingReconciler), blder, [])
      | Some rc \<Rightarrow>
     (case doConfig E blder [] of
        (Some err, b1, t1) \<Rightarrow> (Return (None, Some err), b1, t1)
      | (None, b1, t1) \<Rightarrow>
     (case doManager E b1 t1 of
        (Some err, b2, t2) \<Rightarrow> (Return (None, Some err), b2, t2)
      | (None, b2, t2) \<Rightarrow>
     (case doController E b2 t2 rc of
        (Panic, b3, t3) \<Rightarrow> (Panic, b3, t3)
      | (Return (Some err), b3, t3) \<Rightarrow> (Return (None, Some err), b3, t3)
      | (Return None, b3, t3) \<Rightarrow>
     (case doWebhook E b3 t3 of
        (Panic, b4, t4) \<Rightarrow> (Panic, b4, t4)
      | (Return (Some err), b4, t4) \<Rightarrow> (Return (None, Some err), b4, t4)
      | (Return None, b4, t4) \<Rightarrow>
     (case doWatch E b4 t4 of
        (Panic, b5, t5) \<Rightarrow> (Panic, b5, t5)
      | (Return (Some err), b5, t5) \<Rightarrow> (Return (None, Some err), b5, t5)
      | (Return None, b5, t5) \<Rightarrow> (Return (mgr b5, None), b5, t5)))))))"

definition Complete ::
  "env \<Rightarrow> Builder \<Rightarrow> reconciler option \<Rightarrow> error option outcome \<times> Builder \<times> log" where
  "Complete E blder r =
     (case Build E blder r of
        (Panic, b, t) \<Rightarrow> (Panic, b, t)
      | (Return (m, err), b, t) \<Rightarrow> (Return err, b, t))"

subsection \<open>Reading the log\<close>

text \<open>The function of the builder that makes a call.\<close>

datatype step = ConfigStep | ManagerStep | ControllerStep | WebhookStep | WatchStep

fun step_of :: "call \<Rightarrow> step" where
  "step_of Call_getConfig = ConfigStep"
| "step_of (Call_newManager c) = ManagerStep"
| "step_of (Call_getGvk a s) = ControllerStep"
| "step_of (Call_newController n m r) = ControllerStep"
| "step_of (Call_GVKForObject a s) = WebhookStep"
| "step_of (Call_Register m p w) = WebhookStep"
| "step_of (Call_Watch c s h ps) = WatchStep"

definition calls :: "log \<Rightarrow> call list" where
  "calls t = map fst t"

definition only_step :: "step \<Rightarrow> log \<Rightarrow> bool" where
  "only_step s d = list_all (\<lambda>x. step_of (fst x) = s) d"

fun is_getConfig :: "call \<Rightarrow> bool" where
  "is_getConfig Call_getConfig = True"
| "is_getConfig c = False"

fun is_newManager :: "call \<Rightarrow> bool" where
  "is_newManager (Call_newManager c) = True"
| "is_newManager c = False"

fun is_newController :: "call \<Rightarrow> bool" where
  "is_newController (Call_newController n m r) = True"
| "is_newController c = False"

fun is_GVKForObject :: "call \<Rightarrow> bool" where
  "is_GVKForObject (Call_GVKForObject a s) = True"
| "is_GVKForObject c = False"

fun is_Register :: "call \<Rightarrow> bool" where
  "is_Register (Call_Register m p w) = True"
| "is_Register c = False"

fun is_Watch :: "call \<Rightarrow> bool" where
  "is_Watch (Call_Watch c s h ps) = True"
| "is_Watch c = False"

text \<open>The calls that returned an error.\<close>

definition failures :: "log \<Rightarrow> log" where
  "failures t = filter (\<lambda>x. snd x \<noteq> None) t"

text \<open>
  What the framework returns as error for a call made after the calls of \<open>h\<close>
  (\<open>Register\<close> has no result), and whether a log records, from the history \<open>h\<close> on, what
  the framework returned for each of its calls.
\<close>

fun result :: "env \<Rightarrow> log \<Rightarrow> call \<Rightarrow> error option" where
  "result E h Call_getConfig = snd (getConfig E h)"
| "result E h (Call_newManager c) = snd (newManager E h c)"
| "result E h (Call_getGvk a s) = snd (getGvk E h a s)"
| "result E h (Call_newController n m r) = snd (newController E h n m r)"
| "result E h (Call_GVKForObject a s) = snd (GVKForObject E h a s)"
| "result E h (Call_Register m p w) = None"
| "result E h (Call_Watch c s eh ps) = Watch E h c s eh ps"

fun replay :: "env \<Rightarrow> log \<Rightarrow> log \<Rightarrow> bool" where
  "replay E h [] = True"
| "replay E h (x # t) = (snd x = result E h (fst x) \<and> replay E (h @ [x]) t)"

text \<open>
  A run of calls that ends with the result \<open>e\<close>: no call failed when \<open>e\<close> is nil; otherwise
  the last call, and no other, failed, with \<open>e\<close>.
\<close>

definition stops_on :: "log \<Rightarrow> error option \<Rightarrow> bool" where
  "stops_on d e =
     (case e of
        None \<Rightarrow> failures d = []
      | Some err \<Rightarrow> d \<noteq> [] \<and> snd (last d) = Some err \<and> failures (butlast d) = [])"

subsection \<open>Example values\<close>

definition foo_gvk :: GroupVersionKind where
  "foo_gvk = \<lparr>Group = ''apps.example.com'', Version = ''v1'', Kind = ''Foo''\<rparr>"

definition widget_gvk :: GroupVersionKind where
  "widget_gvk = \<lparr>Group = ''example.com'', Version = ''v1beta1'', Kind = ''Widget''\<rparr>"

definition foo_type :: runtime_object where
  "foo_type = \<lparr>typeName = ''Foo'', implementsDefaulter = True, implementsValidator = True\<rparr>"

definition plain_type :: runtime_object where
  "plain_type = \<lparr>typeName = ''Plain'', implementsDefaulter = False, implementsValidator = False\<rparr>"

definition pod_type :: runtime_object where
  "pod_type = \<lparr>typeName = ''Pod'', implementsDefaulter = False, implementsValidator = False\<rparr>"

definition manager0 :: manager where
  "manager0 =
     \<lparr>managerName = ''given'', GetConfig = Some (Config ''of-manager''), GetScheme = Scheme ''s''\<rparr>"

definition reconciler0 :: reconciler where
  "reconciler0 = Reconciler ''r''"

text \<open>A framework in which every call succeeds and every type resolves to \<open>foo_gvk\<close>.\<close>

definition env_ok :: env where
  "env_ok =
     \<lparr>getConfig = (\<lambda>t. (Some (Config ''ambient''), None)),
      newManager =
        (\<lambda>t c. (Some \<lparr>managerName = ''new'', GetConfig = c, GetScheme = Scheme ''s''\<rparr>, None)),
      getGvk = (\<lambda>t a s. (foo_gvk, None)),
      newController = (\<lambda>t n m r. (Some (Controller n), None)),
      GVKForObject = (\<lambda>t a s. (foo_gvk, None)),
      DefaultingWebhookFor = (\<lambda>a. Some (Webhook ''defaulting'')),
      ValidatingWebhookFor = (\<lambda>a. Some (Webhook ''validating'')),
      Watch = (\<lambda>t c s h ps. None)\<rparr>"

text \<open>The same framework, where \<open>getGvk\<close> resolves every type to \<open>widget_gvk\<close>.\<close>

definition env_widget :: env where
  "env_widget = env_ok\<lparr>getGvk := (\<lambda>t a s. (widget_gvk, None))\<rparr>"

text \<open>The same framework, where \<open>apiutil.GVKForObject\<close> fails.\<close>

definition env_gvk_fails :: env where
  "env_gvk_fails =
     env_ok\<lparr>GVKForObject :=
       (\<lambda>t a s. (\<lparr>Group = [], Version = [], Kind = []\<rparr>, Some (Error ''no kind registered'')))\<rparr>"

text \<open>The same framework, where the second \<open>Watch\<close> fails.\<close>

definition env_watch_fails :: env where
  "env_watch_fails =
     env_ok\<lparr>Watch :=
       (\<lambda>t c s h ps. if length (filter is_Watch (calls t)) = 1
                     then Some (Error ''watch refused'') else None)\<rparr>"

text \<open>The same framework, where the webhook constructors return nil.\<close>

definition env_nil_webhooks :: env where
  "env_nil_webhooks =
     env_ok\<lparr>DefaultingWebhookFor := (\<lambda>a. None), ValidatingWebhookFor := (\<lambda>a. None)\<rparr>"

text \<open>
  \<open>ControllerManagedBy(m).For(&Foo{}).Owns(&Pod{}).Owns(&Pod{}).Watches(src, h).WithEventFilter(p)\<close>
\<close>

definition builder0 :: Builder where
  "builder0 =
     WithEventFilter
       (Watches
          (Owns (Owns (For (ControllerManagedBy (Some manager0)) (Some foo_type)) (Some pod_type))
             (Some pod_type))
          (OtherSource ''channel'') (OtherHandler ''enqueue''))
       (Predicate ''generation-changed'')"

text \<open>\<open>SimpleController().For(&Foo{})\<close>: neither a config nor a manager is set.\<close>

definition builder1 :: Builder where
  "builder1 = For SimpleController (Some foo_type)"

section \<open>Properties\<close>

subsection \<open>Each step appends calls of its own kind and changes its own field\<close>

lemma only_step_simps [simp]:
  "only_step s []"
  "only_step s (x # d) = (step_of (fst x) = s \<and> only_step s d)"
  "only_step s (d @ d') = (only_step s d \<and> only_step s d')"
  by (simp_all add: only_step_def)

lemma calls_simps [simp]:
  "calls [] = []"
  "calls (x # t) = fst x # calls t"
  "calls (t @ t') = calls t @ calls t'"
  by (simp_all add: calls_def)

lemma failures_simps [simp]:
  "failures [] = []"
  "failures (x # t) = (if snd x \<noteq> None then x # failures t else failures t)"
  "failures (t @ t') = failures t @ failures t'"
  by (simp_all add: failures_def)

lemma doConfig_log:
  assumes "doConfig E b t = (e, b1, t1)"
  shows "\<exists>d. t1 = t @ d \<and> only_step ConfigStep d"
  using assms by (auto simp: doConfig_def split: if_splits option.splits prod.splits)

lemma doConfig_frame:
  assumes "doConfig E b t = (e, b1, t1)"
  shows "b1 = b\<lparr>config := config b1\<rparr>"
  using assms by (auto simp: doConfig_def split: if_splits option.splits prod.splits)

lemma doManager_log:
  assumes "doManager E b t = (e, b1, t1)"
  shows "\<exists>d. t1 = t @ d \<and> only_step ManagerStep d"
  using assms by (auto simp: doManager_def split: if_splits option.splits prod.splits)

lemma doManager_frame:
  assumes "doManager E b t = (e, b1, t1)"
  shows "b1 = b\<lparr>mgr := mgr b1\<rparr>"
  using assms by (auto simp: doManager_def split: if_splits option.splits prod.splits)

lemma doController_log:
  assumes "doController E b t r = (e, b1, t1)"
  shows "\<exists>d. t1 = t @ d \<and> only_step ControllerStep d"
  using assms
  by (auto simp: doController_def getControllerName_def
           split: if_splits option.splits prod.splits outcome.splits)

lemma doController_frame:
  assumes "doController E b t r = (e, b1, t1)"
  shows "b1 = b\<lparr>ctrl := ctrl b1\<rparr>"
  using assms
  by (auto simp: doController_def getControllerName_def
           split: if_splits option.splits prod.splits outcome.splits)

lemma doWebhook_log:
  assumes "doWebhook E b t = (e, b1, t1)"
  shows "\<exists>d. t1 = t @ d \<and> only_step WebhookStep d"
  using assms
  by (auto simp: doWebhook_def registerDefaulting_def registerValidating_def
           split: if_splits option.splits prod.splits outcome.splits)

lemma doWebhook_frame:
  assumes "doWebhook E b t = (e, b1, t1)"
  shows "b1 = b"
  using assms by (auto simp: doWebhook_def split: if_splits option.splits prod.splits)

lemma watchManaged_log:
  "watchManaged E b c objs t = (e, t1) \<Longrightarrow> \<exists>d. t1 = t @ d \<and> only_step WatchStep d"
proof (induction objs arbitrary: t)
  case Nil
  then show ?case by simp
next
  case (Cons obj objs)
  let ?x = "Call_Watch c (source_Kind obj) (EnqueueRequestForOwner (apiType b) True) (predicates b)"
  show ?case
  proof (cases "Watch E t c (source_Kind obj) (EnqueueRequestForOwner (apiType b) True) (predicates b)")
    case None
    with Cons.prems have "watchManaged E b c objs (t @ [(?x, None)]) = (e, t1)" by simp
    from Cons.IH [OF this] obtain d where "t1 = (t @ [(?x, None)]) @ d" "only_step WatchStep d"
      by blast
    then have "t1 = t @ ((?x, None) # d) \<and> only_step WatchStep ((?x, None) # d)" by simp
    then show ?thesis by blast
  next
    case (Some err)
    with Cons.prems have "t1 = t @ [(?x, Some err)] \<and> only_step WatchStep [(?x, Some err)]"
      by auto
    then show ?thesis by blast
  qed
qed

lemma watchRequests_log:
  "watchRequests E b c ws t = (e, t1) \<Longrightarrow> \<exists>d. t1 = t @ d \<and> only_step WatchStep d"
proof (induction ws arbitrary: t)
  case Nil
  then show ?case by simp
next
  case (Cons w ws)
  let ?x = "Call_Watch c (src w) (eventhandler w) (predicates b)"
  show ?case
  proof (cases "Watch E t c (src w) (eventhandler w) (predicates b)")
    case None
    with Cons.prems have "watchRequests E b c ws (t @ [(?x, None)]) = (e, t1)" by simp
    from Cons.IH [OF this] obtain d where "t1 = (t @ [(?x, None)]) @ d" "only_step WatchStep d"
      by blast
    then have "t1 = t @ ((?x, None) # d) \<and> only_step WatchStep ((?x, None) # d)" by simp
    then show ?thesis by blast
  next
    case (Some err)
    with Cons.prems have "t1 = t @ [(?x, Some err)] \<and> only_step WatchStep [(?x, Some err)]"
      by auto
    then show ?thesis by blast
  qed
qed

lemma doWatch_log:
  assumes "doWatch E b t = (e, b1, t1)"
  shows "\<exists>d. t1 = t @ d \<and> only_step WatchStep d"
  using assms
  by (auto simp: doWatch_def split: if_splits option.splits prod.splits outcome.splits
           dest!: watchManaged_log watchRequests_log)

lemma doWatch_frame:
  assumes "doWatch E b t = (e, b1, t1)"
  shows "b1 = b"
  using assms by (auto simp: doWatch_def split: if_splits option.splits prod.splits)

lemma doConfig_fields:
  assumes "doConfig E b t = (e, b1, t1)"
  shows "apiType b1 = apiType b" "mgr b1 = mgr b" "predicates b1 = predicates b"
    "managedObjects b1 = managedObjects b" "watchRequest b1 = watchRequest b" "ctrl b1 = ctrl b"
  using assms by (auto simp: doConfig_def split: if_splits option.splits prod.splits)

lemma doManager_fields:
  assumes "doManager E b t = (e, b1, t1)"
  shows "apiType b1 = apiType b" "config b1 = config b" "predicates b1 = predicates b"
    "managedObjects b1 = managedObjects b" "watchRequest b1 = watchRequest b" "ctrl b1 = ctrl b"
  using assms by (auto simp: doManager_def split: if_splits option.splits prod.splits)

lemma doController_fields:
  assumes "doController E b t r = (e, b1, t1)"
  shows "apiType b1 = apiType b" "config b1 = config b" "predicates b1 = predicates b"
    "managedObjects b1 = managedObjects b" "watchRequest b1 = watchRequest b" "mgr b1 = mgr b"
  using assms
  by (auto simp: doController_def getControllerName_def
           split: if_splits option.splits prod.splits outcome.splits)

lemma Build_split:
  assumes "Build E b (Some rc) = (out, b', t')"
  obtains
    (StopConfig) e where "doConfig E b [] = (Some e, b', t')" "out = Return (None, Some e)"
  | (StopManager) b1 t1 e where "doConfig E b [] = (None, b1, t1)"
      "doManager E b1 t1 = (Some e, b', t')" "out = Return (None, Some e)"
  | (StopController) b1 t1 b2 t2 oc where "doConfig E b [] = (None, b1, t1)"
      "doManager E b1 t1 = (None, b2, t2)"
      "doController E b2 t2 rc = (oc, b', t')" "oc \<noteq> Return None"
      "out = (case oc of Panic \<Rightarrow> Panic | Return e \<Rightarrow> Return (None, e))"
  | (StopWebhook) b1 t1 b2 t2 b3 t3 ow where "doConfig E b [] = (None, b1, t1)"
      "doManager E b1 t1 = (None, b2, t2)" "doController E b2 t2 rc = (Return None, b3, t3)"
      "doWebhook E b3 t3 = (ow, b', t')" "ow \<noteq> Return None"
      "out = (case ow of Panic \<Rightarrow> Panic | Return e \<Rightarrow> Return (None, e))"
  | (Watch) b1 t1 b2 t2 b3 t3 t4 ow where "doConfig E b [] = (None, b1, t1)"
      "doManager E b1 t1 = (None, b2, t2)" "doController E b2 t2 rc = (Return None, b3, t3)"
      "doWebhook E b3 t3 = (Return None, b3, t4)" "doWatch E b3 t4 = (ow, b', t')"
      "out = (case ow of Panic \<Rightarrow> Panic | Return None \<Rightarrow> Return (mgr b', None)
              | Return (Some e) \<Rightarrow> Return (None, Some e))"
proof -
  show ?thesis
  using assms that unfolding Build_def
  by (auto split: prod.splits option.splits outcome.splits dest: doWebhook_frame)
qed

text \<open>
  How a run of \<open>Build\<close> with a reconciler decomposes: the steps that ran, the calls each
  appended, and the fields each left alone.
\<close>

lemma Build_cases [consumes 1, case_names StopConfig StopManager StopController StopWebhook Watch]:
  assumes "Build E b (Some rc) = (out, b', t')"
  obtains
    e where "doConfig E b [] = (Some e, b', t')" "out = Return (None, Some e)"
      "only_step ConfigStep t'"
      "apiType b' = apiType b" "mgr b' = mgr b" "predicates b' = predicates b"
      "managedObjects b' = managedObjects b" "watchRequest b' = watchRequest b" "ctrl b' = ctrl b"
  | b1 t1 e d2 where "doConfig E b [] = (None, b1, t1)"
      "doManager E b1 t1 = (Some e, b', t1 @ d2)" "out = Return (None, Some e)"
      "t' = t1 @ d2" "only_step ConfigStep t1" "only_step ManagerStep d2"
      "apiType b' = apiType b" "mgr b1 = mgr b" "predicates b' = predicates b"
      "managedObjects b' = managedObjects b" "watchRequest b' = watchRequest b" "ctrl b' = ctrl b"
      "config b' = config b1"
  | b1 t1 b2 d2 d3 oc where "doConfig E b [] = (None, b1, t1)"
      "doManager E b1 t1 = (None, b2, t1 @ d2)"
      "doController E b2 (t1 @ d2) rc = (oc, b', t1 @ d2 @ d3)" "oc \<noteq> Return None"
      "out = (case oc of Panic \<Rightarrow> Panic | Return e \<Rightarrow> Return (None, e))"
      "t' = t1 @ d2 @ d3" "only_step ConfigStep t1" "only_step ManagerStep d2"
      "only_step ControllerStep d3"
      "apiType b' = apiType b" "mgr b1 = mgr b" "predicates b' = predicates b"
      "managedObjects b' = managedObjects b" "watchRequest b' = watchRequest b"
      "config b' = config b1" "config b2 = config b1" "mgr b' = mgr b2"
      "apiType b2 = apiType b"
  | b1 t1 b2 d2 b3 d3 d4 ow where "doConfig E b [] = (None, b1, t1)"
      "doManager E b1 t1 = (None, b2, t1 @ d2)"
      "doController E b2 (t1 @ d2) rc = (Return None, b3, t1 @ d2 @ d3)"
      "doWebhook E b3 (t1 @ d2 @ d3) = (ow, b', t1 @ d2 @ d3 @ d4)" "ow \<noteq> Return None"
      "out = (case ow of Panic \<Rightarrow> Panic | Return e \<Rightarrow> Return (None, e))"
      "t' = t1 @ d2 @ d3 @ d4" "only_step ConfigStep t1" "only_step ManagerStep d2"
      "only_step ControllerStep d3" "only_step WebhookStep d4" "b' = b3"
      "apiType b' = apiType b" "mgr b1 = mgr b" "predicates b' = predicates b"
      "managedObjects b' = managedObjects b" "watchRequest b' = watchRequest b"
      "config b' = config b1" "config b2 = config b1" "mgr b' = mgr b2"
      "apiType b2 = apiType b"
  | b1 t1 b2 d2 d3 d4 d5 ow where "doConfig E b [] = (None, b1, t1)"
      "doManager E b1 t1 = (None, b2, t1 @ d2)"
      "doController E b2 (t1 @ d2) rc = (Return None, b', t1 @ d2 @ d3)"
      "doWebhook E b' (t1 @ d2 @ d3) = (Return None, b', t1 @ d2 @ d3 @ d4)"
      "doWatch E b' (t1 @ d2 @ d3 @ d4) = (ow, b', t1 @ d2 @ d3 @ d4 @ d5)"
      "out = (case ow of Panic \<Rightarrow> Panic | Return None \<Rightarrow> Return (mgr b', None)
              | Return (Some e) \<Rightarrow> Return (None, Some e))"
      "t' = t1 @ d2 @ d3 @ d4 @ d5" "only_step ConfigStep t1" "only_step ManagerStep d2"
      "only_step ControllerStep d3" "only_step WebhookStep d4" "only_step WatchStep d5"
      "apiType b' = apiType b" "mgr b1 = mgr b" "predicates b' = predicates b"
      "managedObjects b' = managedObjects b" "watchRequest b' = watchRequest b"
      "config b' = config b1" "config b2 = config b1" "mgr b' = mgr b2"
      "apiType b2 = apiType b"
  using assms
proof (cases rule: Build_split)
  case (StopConfig e)
  from doConfig_log [OF StopConfig(1)] have "only_step ConfigStep t'" by auto
  with StopConfig doConfig_fields [OF StopConfig(1)] show ?thesis
    using that(1) by blast
next
  case (StopManager b1 t1 e)
  from doConfig_log [OF StopManager(1)] have s1: "only_step ConfigStep t1" by auto
  from doManager_log [OF StopManager(2)] obtain d2 where d2: "t' = t1 @ d2" "only_step ManagerStep d2"
    by auto
  show ?thesis
    using that(2) [of b1 t1 e d2] StopManager s1 d2 doConfig_fields [OF StopManager(1)]
      doManager_fields [OF StopManager(2)]
    by simp
next
  case (StopController b1 t1 b2 t2 oc)
  from doConfig_log [OF StopController(1)] have s1: "only_step ConfigStep t1" by auto
  from doManager_log [OF StopController(2)] obtain d2 where
    d2: "t2 = t1 @ d2" "only_step ManagerStep d2" by auto
  from doController_log [OF StopController(3)] obtain d3 where
    d3: "t' = t2 @ d3" "only_step ControllerStep d3" by auto
  show ?thesis
    using that(3) [of b1 t1 b2 d2 oc d3] StopController s1 d2 d3
      doConfig_fields [OF StopController(1)]
      doManager_fields [OF StopController(2)] doController_fields [OF StopController(3)]
    by simp
next
  case (StopWebhook b1 t1 b2 t2 b3 t3 ow)
  from doConfig_log [OF StopWebhook(1)] have s1: "only_step ConfigStep t1" by auto
  from doManager_log [OF StopWebhook(2)] obtain d2 where
    d2: "t2 = t1 @ d2" "only_step ManagerStep d2" by auto
  from doController_log [OF StopWebhook(3)] obtain d3 where
    d3: "t3 = t2 @ d3" "only_step ControllerStep d3" by auto
  from doWebhook_log [OF StopWebhook(4)] obtain d4 where
    d4: "t' = t3 @ d4" "only_step WebhookStep d4" by auto
  show ?thesis
    using that(4) [of b1 t1 b2 d2 b3 d3 ow d4] StopWebhook s1 d2 d3 d4
      doConfig_fields [OF StopWebhook(1)]
      doManager_fields [OF StopWebhook(2)] doController_fields [OF StopWebhook(3)]
      doWebhook_frame [OF StopWebhook(4)]
    by simp
next
  case (Watch b1 t1 b2 t2 b3 t3 t4 ow)
  from doConfig_log [OF Watch(1)] have s1: "only_step ConfigStep t1" by auto
  from doManager_log [OF Watch(2)] obtain d2 where
    d2: "t2 = t1 @ d2" "only_step ManagerStep d2" by auto
  from doController_log [OF Watch(3)] obtain d3 where
    d3: "t3 = t2 @ d3" "only_step ControllerStep d3" by auto
  from doWebhook_log [OF Watch(4)] obtain d4 where
    d4: "t4 = t3 @ d4" "only_step WebhookStep d4" by auto
  from doWatch_log [OF Watch(5)] obtain d5 where
    d5: "t' = t4 @ d5" "only_step WatchStep d5" by auto
  have b3: "b3 = b'" using doWatch_frame [OF Watch(5)] by simp
  show ?thesis
    using that(5) [of b1 t1 b2 d2 d3 d4 ow d5] Watch s1 d2 d3 d4 d5
      doConfig_fields [OF Watch(1)]
      doManager_fields [OF Watch(2)] doController_fields [OF Watch(3)] b3
    by simp
qed

lemma no_call_of_other_step:
  assumes "only_step s d" "\<And>c. P c \<Longrightarrow> step_of c \<noteq> s"
  shows "filter P (calls d) = []"
  using assms by (induction d) auto

lemma is_step:
  "is_getConfig c \<Longrightarrow> step_of c = ConfigStep"
  "is_newManager c \<Longrightarrow> step_of c = ManagerStep"
  "is_newController c \<Longrightarrow> step_of c = ControllerStep"
  "is_GVKForObject c \<Longrightarrow> step_of c = WebhookStep"
  "is_Register c \<Longrightarrow> step_of c = WebhookStep"
  "is_Watch c \<Longrightarrow> step_of c = WatchStep"
  by (cases c; simp)+

subsection \<open>Resolving the config\<close>

lemma doConfig_result:
  assumes "doConfig E b t = (e, b1, t1)"
  shows "(\<forall>c. config b = Some c \<longrightarrow> b1 = b \<and> t1 = t \<and> e = None)
    \<and> (\<forall>m. config b = None \<and> mgr b = Some m \<longrightarrow>
          config b1 = GetConfig m \<and> t1 = t \<and> e = None)
    \<and> (config b = None \<and> mgr b = None \<longrightarrow>
          config b1 = fst (getConfig E t) \<and> e = snd (getConfig E t)
          \<and> t1 = t @ [(Call_getConfig, snd (getConfig E t))])"
  using assms by (auto simp: doConfig_def split: if_splits option.splits prod.splits)

lemma Build_getConfig_calls:
  assumes "Build E b (Some rc) = (out, b', t')" "doConfig E b [] = (e, b1, t1)"
  shows "filter is_getConfig (calls t') = filter is_getConfig (calls t1) \<and> config b' = config b1"
  using assms(1)
proof (cases rule: Build_cases)
  case StopConfig
  then show ?thesis using assms(2) by simp
next
  case StopManager
  then show ?thesis using assms(2)
    by (simp add: no_call_of_other_step is_step)
next
  case StopController
  then show ?thesis using assms(2)
    by (simp add: no_call_of_other_step is_step)
next
  case StopWebhook
  then show ?thesis using assms(2)
    by (simp add: no_call_of_other_step is_step)
next
  case Watch
  then show ?thesis using assms(2)
    by (simp add: no_call_of_other_step is_step)
qed

text \<open>
  C1. In a \<open>Build\<close> with a reconciler: when a config was set, the builder keeps it and
  \<open>getConfig\<close> is not called; when no config but a manager was set, the builder's config
  becomes what the manager's \<open>GetConfig()\<close> returns and \<open>getConfig\<close> is not called; when
  neither was set, \<open>getConfig\<close> is called exactly once, as the first call, and what it
  returns becomes the builder's config.
\<close>

theorem doConfig_precedence:
  assumes "Build E blder (Some rc) = (out, b', t')"
  shows "(\<forall>c. config blder = Some c \<longrightarrow>
            config b' = Some c \<and> filter is_getConfig (calls t') = [])
    \<and> (\<forall>m. config blder = None \<and> mgr blder = Some m \<longrightarrow>
            config b' = GetConfig m \<and> filter is_getConfig (calls t') = [])
    \<and> (config blder = None \<and> mgr blder = None \<longrightarrow>
            config b' = fst (getConfig E []) \<and> filter is_getConfig (calls t') = [Call_getConfig])"
proof -
  obtain e b1 t1 where c: "doConfig E blder [] = (e, b1, t1)"
    by (cases "doConfig E blder []") auto
  from Build_getConfig_calls [OF assms c] doConfig_result [OF c]
  show ?thesis by auto
qed

subsection \<open>A nil reconciler\<close>

text \<open>
  C6. For every builder and every framework, \<open>Build\<close> and \<open>Complete\<close> with a nil reconciler
  return the error "must provide a non-nil Reconciler" (and \<open>Build\<close> a nil manager), make no
  call to the framework (the log is empty, so none of the config, manager, controller,
  webhook and watch steps has run) and leave the builder as it was.
\<close>

theorem Build_nil_reconciler:
  "Build E blder None = (Return (None, Some MissingReconciler), blder, [])
   \<and> Complete E blder None = (Return (Some MissingReconciler), blder, [])
   \<and> MissingReconciler = Error ''must provide a non-nil Reconciler''"
  by (simp add: Build_def Complete_def MissingReconciler_def)

subsection \<open>Constructing the manager\<close>

lemma doManager_result:
  assumes "doManager E b t = (e, b1, t1)"
  shows "(\<forall>m. mgr b = Some m \<longrightarrow> b1 = b \<and> t1 = t \<and> e = None)
    \<and> (mgr b = None \<longrightarrow>
          mgr b1 = fst (newManager E t (config b)) \<and> e = snd (newManager E t (config b))
          \<and> t1 = t @ [(Call_newManager (config b), snd (newManager E t (config b)))])"
  using assms by (auto simp: doManager_def split: if_splits option.splits prod.splits)

lemma Build_newManager_calls:
  assumes "Build E b (Some rc) = (out, b', t')"
  shows "(\<forall>m. mgr b = Some m \<longrightarrow> filter is_newManager (calls t') = [] \<and> mgr b' = Some m)
    \<and> (\<forall>b1 t1. mgr b = None \<and> doConfig E b [] = (None, b1, t1) \<longrightarrow>
          filter is_newManager (calls t') = [Call_newManager (config b1)]
          \<and> mgr b' = fst (newManager E t1 (config b1)))"
  using assms
proof (cases rule: Build_cases)
  case StopConfig
  then show ?thesis by (simp add: no_call_of_other_step is_step)
next
  case StopManager
  then show ?thesis using doManager_result [OF StopManager(2)]
    by (auto simp: no_call_of_other_step is_step)
next
  case StopController
  then show ?thesis using doManager_result [OF StopController(2)]
    by (auto simp: no_call_of_other_step is_step)
next
  case StopWebhook
  then show ?thesis using doManager_result [OF StopWebhook(2)]
    by (auto simp: no_call_of_other_step is_step)
next
  case Watch
  then show ?thesis using doManager_result [OF Watch(2)]
    by (auto simp: no_call_of_other_step is_step)
qed

text \<open>
  C7. When a manager was set, \<open>Build\<close> never calls \<open>newManager\<close> and keeps that manager.
  When none was set and the config step succeeded (the reconciler not being nil),
  \<open>newManager\<close> is called exactly once, with the config that step left in the builder, and
  what it returns becomes the builder's manager.
\<close>

theorem doManager_constructs:
  assumes "Build E blder r = (out, b', t')"
  shows "(\<forall>m. mgr blder = Some m \<longrightarrow>
            filter is_newManager (calls t') = [] \<and> mgr b' = Some m)
    \<and> (\<forall>rc b1 t1. mgr blder = None \<and> r = Some rc \<and> doConfig E blder [] = (None, b1, t1) \<longrightarrow>
            filter is_newManager (calls t') = [Call_newManager (config b1)]
            \<and> mgr b' = fst (newManager E t1 (config b1)))"
proof (cases r)
  case None
  with assms show ?thesis by (auto simp: Build_def)
next
  case (Some rc)
  with assms Build_newManager_calls [of E blder rc out b' t'] show ?thesis by simp
qed

subsection \<open>Naming and constructing the controller\<close>

lemma doController_result:
  assumes "doController E b t rc = (oc, b1, t @ d)"
  shows "filter is_newController (calls d) = []
    \<or> (\<exists>m g res. mgr b = Some m \<and> getGvk E t (apiType b) (GetScheme m) = (g, None)
          \<and> d = [(Call_getGvk (apiType b) (GetScheme m), None),
                 (Call_newController (ToLower (Kind g) @ ''-application'') m rc, res)])"
  using assms
  by (auto simp: doController_def getControllerName_def
           split: if_splits option.splits prod.splits outcome.splits)

lemma Build_newController_calls:
  assumes "Build E b (Some rc) = (out, b', t')"
  shows "filter is_newController (calls t') = []
    \<or> (\<exists>h m g res rest. mgr b' = Some m \<and> getGvk E h (apiType b) (GetScheme m) = (g, None)
          \<and> t' = h @ [(Call_getGvk (apiType b) (GetScheme m), None),
                      (Call_newController (ToLower (Kind g) @ ''-application'') m rc, res)] @ rest
          \<and> filter is_newController (calls h) = []
          \<and> filter is_newController (calls rest) = [])"
  using assms
proof (cases rule: Build_cases)
  case StopConfig
  then show ?thesis by (simp add: no_call_of_other_step is_step)
next
  case StopManager
  then show ?thesis by (simp add: no_call_of_other_step is_step)
next
  case (StopController b1 t1 b2 d2 d3 oc)
  from doController_result [of E b2 "t1 @ d2" rc oc b' d3] StopController(3)
  consider "filter is_newController (calls d3) = []"
    | m g res where "mgr b2 = Some m" "getGvk E (t1 @ d2) (apiType b2) (GetScheme m) = (g, None)"
        "d3 = [(Call_getGvk (apiType b2) (GetScheme m), None),
               (Call_newController (ToLower (Kind g) @ ''-application'') m rc, res)]"
    by auto
  then show ?thesis
  proof cases
    case 1
    with StopController show ?thesis by (simp add: no_call_of_other_step is_step)
  next
    case 2
    have "filter is_newController (calls (t1 @ d2)) = []"
      using StopController by (simp add: no_call_of_other_step is_step)
    moreover have "t' = (t1 @ d2) @ [(Call_getGvk (apiType b) (GetScheme m), None),
        (Call_newController (ToLower (Kind g) @ ''-application'') m rc, res)] @ []"
      using StopController 2 by simp
    moreover have "filter is_newController (calls []) = []" by simp
    ultimately show ?thesis using StopController 2 by metis
  qed
next
  case (StopWebhook b1 t1 b2 d2 b3 d3 d4 ow)
  from doController_result [of E b2 "t1 @ d2" rc "Return None" b3 d3] StopWebhook(3)
  consider "filter is_newController (calls d3) = []"
    | m g res where "mgr b2 = Some m" "getGvk E (t1 @ d2) (apiType b2) (GetScheme m) = (g, None)"
        "d3 = [(Call_getGvk (apiType b2) (GetScheme m), None),
               (Call_newController (ToLower (Kind g) @ ''-application'') m rc, res)]"
    by auto
  then show ?thesis
  proof cases
    case 1
    with StopWebhook show ?thesis by (simp add: no_call_of_other_step is_step)
  next
    case 2
    have "filter is_newController (calls (t1 @ d2)) = []"
      using StopWebhook by (simp add: no_call_of_other_step is_step)
    moreover have "t' = (t1 @ d2) @ [(Call_getGvk (apiType b) (GetScheme m), None),
        (Call_newController (ToLower (Kind g) @ ''-application'') m rc, res)] @ d4"
      using StopWebhook 2 by simp
    moreover have "filter is_newController (calls d4) = []"
      using StopWebhook by (simp add: no_call_of_other_step is_step)
    ultimately show ?thesis using StopWebhook 2 by metis
  qed
next
  case (Watch b1 t1 b2 d2 d3 d4 d5 ow)
  from doController_result [of E b2 "t1 @ d2" rc "Return None" b' d3] Watch(3)
  consider "filter is_newController (calls d3) = []"
    | m g res where "mgr b2 = Some m" "getGvk E (t1 @ d2) (apiType b2) (GetScheme m) = (g, None)"
        "d3 = [(Call_getGvk (apiType b2) (GetScheme m), None),
               (Call_newController (ToLower (Kind g) @ ''-application'') m rc, res)]"
    by auto
  then show ?thesis
  proof cases
    case 1
    with Watch show ?thesis by (simp add: no_call_of_other_step is_step)
  next
    case 2
    have "filter is_newController (calls (t1 @ d2)) = []"
      using Watch by (simp add: no_call_of_other_step is_step)
    moreover have "t' = (t1 @ d2) @ [(Call_getGvk (apiType b) (GetScheme m), None),
        (Call_newController (ToLower (Kind g) @ ''-application'') m rc, res)] @ (d4 @ d5)"
      using Watch 2 by simp
    moreover have "filter is_newController (calls (d4 @ d5)) = []"
      using Watch by (simp add: no_call_of_other_step is_step)
    ultimately show ?thesis using Watch 2 by metis
  qed
qed

lemma newController_in_filter:
  "Call_newController n m r \<in> set cs \<Longrightarrow> Call_newController n m r \<in> set (filter is_newController cs)"
  by simp

text \<open>
  C8. Every call of the controller constructor that \<open>Build\<close> makes comes right after a
  call of \<open>getGvk\<close> that resolved the reconciled type, without error, to some GVK; the name
  passed is the lower-cased kind of that GVK followed by "-application", the manager passed
  is the builder's and the reconciler is the one given to \<open>Build\<close>.
\<close>

theorem controller_name:
  assumes "Build E blder r = (out, b', t')"
    and "Call_newController name m rc \<in> set (calls t')"
  shows "\<exists>h g res rest.
           getGvk E h (apiType blder) (GetScheme m) = (g, None)
           \<and> name = ToLower (Kind g) @ ''-application''
           \<and> t' = h @ [(Call_getGvk (apiType blder) (GetScheme m), None),
                       (Call_newController name m rc, res)] @ rest
           \<and> r = Some rc \<and> mgr b' = Some m"
proof (cases r)
  case None
  with assms show ?thesis by (auto simp: Build_def)
next
  case (Some rc')
  from assms(2) have ne: "filter is_newController (calls t') \<noteq> []"
    by (auto simp: filter_empty_conv intro!: bexI [of _ "Call_newController name m rc"])
  with Build_newController_calls [of E blder rc' out b' t'] assms(1) Some
  obtain h m' g res rest where *: "mgr b' = Some m'"
    "getGvk E h (apiType blder) (GetScheme m') = (g, None)"
    "t' = h @ [(Call_getGvk (apiType blder) (GetScheme m'), None),
               (Call_newController (ToLower (Kind g) @ ''-application'') m' rc', res)] @ rest"
    "filter is_newController (calls h) = []" "filter is_newController (calls rest) = []"
    by auto
  from *(3-5) have "filter is_newController (calls t') =
      [Call_newController (ToLower (Kind g) @ ''-application'') m' rc']" by simp
  with assms(2) newController_in_filter [of name m rc "calls t'"]
  have "name = ToLower (Kind g) @ ''-application''" "m = m'" "rc = rc'" by auto
  with * Some show ?thesis by blast
qed

subsection \<open>Registering the webhooks\<close>

lemma registerDefaulting_append:
  "registerDefaulting E b m g t = t @ registerDefaulting E b m g []"
  by (simp add: registerDefaulting_def split: option.splits)

lemma registerValidating_append:
  "registerValidating E b m g t = t @ registerValidating E b m g []"
  by (simp add: registerValidating_def split: option.splits)

lemma doWebhook_result:
  assumes "doWebhook E b t = (ow, b1, t @ d)"
  shows "(mgr b = None \<and> ow = Panic \<and> d = [])
    \<or> (\<exists>m g e. mgr b = Some m \<and> GVKForObject E t (apiType b) (GetScheme m) = (g, Some e)
          \<and> ow = Return (Some e) \<and> d = [(Call_GVKForObject (apiType b) (GetScheme m), Some e)])
    \<or> (\<exists>m g. mgr b = Some m \<and> GVKForObject E t (apiType b) (GetScheme m) = (g, None)
          \<and> ow = Return None
          \<and> d = (Call_GVKForObject (apiType b) (GetScheme m), None)
                # registerDefaulting E b m g [] @ registerValidating E b m g [])"
proof (cases "mgr b")
  case None
  with assms show ?thesis by (simp add: doWebhook_def)
next
  case (Some m)
  obtain g e where g: "GVKForObject E t (apiType b) (GetScheme m) = (g, e)"
    by (cases "GVKForObject E t (apiType b) (GetScheme m)") auto
  show ?thesis
  proof (cases e)
    case None
    have "registerValidating E b m g
            (registerDefaulting E b m g (t @ [(Call_GVKForObject (apiType b) (GetScheme m), None)]))
          = t @ (Call_GVKForObject (apiType b) (GetScheme m), None)
                # registerDefaulting E b m g [] @ registerValidating E b m g []"
      using registerValidating_append [of E b m g
          "registerDefaulting E b m g (t @ [(Call_GVKForObject (apiType b) (GetScheme m), None)])"]
        registerDefaulting_append [of E b m g
          "t @ [(Call_GVKForObject (apiType b) (GetScheme m), None)]"]
      by simp
    with assms Some g None show ?thesis by (auto simp: doWebhook_def)
  next
    case (Some err)
    with assms \<open>mgr b = Some m\<close> g show ?thesis by (auto simp: doWebhook_def)
  qed
qed

text \<open>What the two blocks of \<open>doWebhook\<close> register, read off the reconciled type.\<close>

lemma register_calls:
  "calls (registerDefaulting E b m g []) =
     (case apiType b of
        None \<Rightarrow> []
      | Some obj \<Rightarrow>
          (case (implementsDefaulter obj, DefaultingWebhookFor E obj) of
             (True, Some mwh) \<Rightarrow> [Call_Register m (''/mutate-'' @ partialPath g) mwh]
           | _ \<Rightarrow> []))"
  "calls (registerValidating E b m g []) =
     (case apiType b of
        None \<Rightarrow> []
      | Some obj \<Rightarrow>
          (case (implementsValidator obj, ValidatingWebhookFor E obj) of
             (True, Some vwh) \<Rightarrow> [Call_Register m (''/validate-'' @ partialPath g) vwh]
           | _ \<Rightarrow> []))"
  by (simp_all add: registerDefaulting_def registerValidating_def split: option.splits)

lemma filter_register_calls:
  "filter is_Register (calls (registerDefaulting E b m g [])) = calls (registerDefaulting E b m g [])"
  "filter is_Register (calls (registerValidating E b m g [])) = calls (registerValidating E b m g [])"
  by (simp_all add: register_calls split: option.splits bool.splits)

lemma filter_GVK_register_calls:
  "filter is_GVKForObject (calls (registerDefaulting E b m g [])) = []"
  "filter is_GVKForObject (calls (registerValidating E b m g [])) = []"
  by (simp_all add: register_calls split: option.splits bool.splits)

text \<open>
  The webhook calls of a whole \<open>Build\<close>: none when the webhook step was not reached or
  panicked, the failed GVK resolution alone, or the successful one followed by the
  registrations.
\<close>

lemma Build_webhook_calls:
  assumes "Build E b (Some rc) = (out, b', t')"
  shows "(filter is_GVKForObject (calls t') = [] \<and> filter is_Register (calls t') = [])
    \<or> (\<exists>h m g e. mgr b' = Some m \<and> GVKForObject E h (apiType b) (GetScheme m) = (g, Some e)
          \<and> t' = h @ [(Call_GVKForObject (apiType b) (GetScheme m), Some e)]
          \<and> filter is_GVKForObject (calls h) = []
          \<and> filter is_Register (calls t') = []
          \<and> filter is_Watch (calls t') = []
          \<and> out = Return (None, Some e))
    \<or> (\<exists>h m g rest. mgr b' = Some m \<and> GVKForObject E h (apiType b) (GetScheme m) = (g, None)
          \<and> t' = h @ (Call_GVKForObject (apiType b) (GetScheme m), None) # rest
          \<and> filter is_Register (calls t') =
              calls (registerDefaulting E b' m g []) @ calls (registerValidating E b' m g [])
          \<and> apiType b' = apiType b
          \<and> filter is_GVKForObject (calls h) = []
          \<and> filter is_GVKForObject (calls rest) = [])"
    (is "?A \<or> ?B \<or> ?C")
  using assms
proof (cases rule: Build_cases)
  case StopConfig
  then have ?A by (simp add: no_call_of_other_step is_step)
  then show ?thesis by blast
next
  case StopManager
  then have ?A by (simp add: no_call_of_other_step is_step)
  then show ?thesis by blast
next
  case StopController
  then have ?A by (simp add: no_call_of_other_step is_step)
  then show ?thesis by blast
next
  case (StopWebhook b1 t1 b2 d2 b3 d3 d4 ow)
  let ?h = "t1 @ d2 @ d3"
  have h: "filter is_GVKForObject (calls ?h) = []" "filter is_Register (calls ?h) = []"
    "filter is_Watch (calls ?h) = []"
    using StopWebhook by (simp_all add: no_call_of_other_step is_step)
  from StopWebhook(4) have "doWebhook E b3 ?h = (ow, b', ?h @ d4)" by simp
  from doWebhook_result [OF this] StopWebhook(5)
  consider "ow = Panic" "d4 = []"
    | m g e where "mgr b3 = Some m" "GVKForObject E ?h (apiType b3) (GetScheme m) = (g, Some e)"
        "ow = Return (Some e)" "d4 = [(Call_GVKForObject (apiType b3) (GetScheme m), Some e)]"
    by auto
  then show ?thesis
  proof cases
    case 1
    with StopWebhook h have ?A by simp
    then show ?thesis by blast
  next
    case 2
    have "mgr b' = Some m" using 2 StopWebhook by simp
    moreover have "GVKForObject E ?h (apiType b) (GetScheme m) = (g, Some e)"
      using 2 StopWebhook by simp
    moreover have "t' = ?h @ [(Call_GVKForObject (apiType b) (GetScheme m), Some e)]"
      using 2 StopWebhook by simp
    moreover have "filter is_Register (calls t') = []" "filter is_Watch (calls t') = []"
      using 2 StopWebhook h by simp_all
    moreover have "out = Return (None, Some e)" using 2 StopWebhook by simp
    ultimately have ?B using h(1) by blast
    then show ?thesis by blast
  qed
next
  case (Watch b1 t1 b2 d2 d3 d4 d5 ow)
  let ?h = "t1 @ d2 @ d3"
  have h: "filter is_GVKForObject (calls ?h) = []" "filter is_Register (calls ?h) = []"
    "filter is_GVKForObject (calls d5) = []" "filter is_Register (calls d5) = []"
    using Watch by (simp_all add: no_call_of_other_step is_step)
  from Watch(4) have "doWebhook E b' ?h = (Return None, b', ?h @ d4)" by simp
  from doWebhook_result [OF this]
  obtain m g where mg: "mgr b' = Some m" "GVKForObject E ?h (apiType b') (GetScheme m) = (g, None)"
    "d4 = (Call_GVKForObject (apiType b') (GetScheme m), None)
            # registerDefaulting E b' m g [] @ registerValidating E b' m g []"
    by auto
  let ?rest = "(registerDefaulting E b' m g [] @ registerValidating E b' m g []) @ d5"
  have "GVKForObject E ?h (apiType b) (GetScheme m) = (g, None)" using mg Watch by simp
  moreover have "t' = ?h @ (Call_GVKForObject (apiType b) (GetScheme m), None) # ?rest"
    using mg Watch by simp
  moreover have "filter is_Register (calls t') =
      calls (registerDefaulting E b' m g []) @ calls (registerValidating E b' m g [])"
    using mg Watch(7) h by (simp add: filter_register_calls)
  moreover have "filter is_GVKForObject (calls ?rest) = []"
    using h by (simp add: filter_GVK_register_calls)
  moreover have "apiType b' = apiType b" using Watch by simp
  ultimately have ?C using mg(1) h(1) by blast
  then show ?thesis by blast
qed

subsection \<open>The setters\<close>

text \<open>
  C9. Called on an allocated builder, each setter returns the receiver itself, leaves the
  heap with the same builders at the same addresses, changes no builder but the receiver,
  and changes one field of the receiver: \<open>For\<close> (and \<open>ForType\<close>, which calls \<open>For\<close>)
  overwrites \<open>apiType\<close>; \<open>Owns\<close>, \<open>Watches\<close> and \<open>WithEventFilter\<close> append one element
  to \<open>managedObjects\<close>, \<open>watchRequest\<close> and \<open>predicates\<close>; \<open>WithConfig\<close> and
  \<open>WithManager\<close> overwrite \<open>config\<close> and \<open>mgr\<close>.
\<close>

theorem setters_return_receiver:
  assumes "blder < length h"
  shows "Builder_ForType h blder a = Builder_For h blder a
    \<and> (\<exists>h'. Builder_For h blder a = Return (blder, h') \<and> length h' = length h
          \<and> (\<forall>q. q \<noteq> blder \<longrightarrow> h' ! q = h ! q)
          \<and> h' ! blder = (h ! blder)\<lparr>apiType := a\<rparr>)
    \<and> (\<exists>h'. Builder_Owns h blder a = Return (blder, h') \<and> length h' = length h
          \<and> (\<forall>q. q \<noteq> blder \<longrightarrow> h' ! q = h ! q)
          \<and> h' ! blder = (h ! blder)\<lparr>managedObjects := managedObjects (h ! blder) @ [a]\<rparr>)
    \<and> (\<exists>h'. Builder_Watches h blder s eh = Return (blder, h') \<and> length h' = length h
          \<and> (\<forall>q. q \<noteq> blder \<longrightarrow> h' ! q = h ! q)
          \<and> h' ! blder =
              (h ! blder)\<lparr>watchRequest :=
                 watchRequest (h ! blder) @ [\<lparr>src = s, eventhandler = eh\<rparr>]\<rparr>)
    \<and> (\<exists>h'. Builder_WithConfig h blder c = Return (blder, h') \<and> length h' = length h
          \<and> (\<forall>q. q \<noteq> blder \<longrightarrow> h' ! q = h ! q)
          \<and> h' ! blder = (h ! blder)\<lparr>config := c\<rparr>)
    \<and> (\<exists>h'. Builder_WithManager h blder m = Return (blder, h') \<and> length h' = length h
          \<and> (\<forall>q. q \<noteq> blder \<longrightarrow> h' ! q = h ! q)
          \<and> h' ! blder = (h ! blder)\<lparr>mgr := m\<rparr>)
    \<and> (\<exists>h'. Builder_WithEventFilter h blder p = Return (blder, h') \<and> length h' = length h
          \<and> (\<forall>q. q \<noteq> blder \<longrightarrow> h' ! q = h ! q)
          \<and> h' ! blder = (h ! blder)\<lparr>predicates := predicates (h ! blder) @ [p]\<rparr>)"
  using assms
  by (simp add: Builder_ForType_def Builder_For_def Builder_Owns_def Builder_Watches_def
        Builder_WithConfig_def Builder_WithManager_def Builder_WithEventFilter_def
        For_def Owns_def Watches_def WithConfig_def WithManager_def WithEventFilter_def)

theorem setters_return_receiver_witness:
  "(1::nat) < length [builder1, builder0]
   \<and> Builder_ForType [builder1, builder0] 1 (Some pod_type)
       = Builder_For [builder1, builder0] 1 (Some pod_type)
   \<and> (\<exists>h'. Builder_For [builder1, builder0] 1 (Some pod_type) = Return (1, h')
         \<and> length h' = 2 \<and> h' ! 0 = builder1
         \<and> h' ! 1 = builder0\<lparr>apiType := Some pod_type\<rparr>)
   \<and> (\<exists>h'. Builder_WithConfig [builder1, builder0] 1 (Some (Config ''explicit'')) = Return (1, h')
         \<and> length h' = 2 \<and> h' ! 0 = builder1
         \<and> h' ! 1 = builder0\<lparr>config := Some (Config ''explicit'')\<rparr>)"
proof -
  have h: "(1::nat) < length [builder1, builder0]" by simp
  from setters_return_receiver [OF h, of "Some pod_type" "OtherSource ''x''" "OtherHandler ''y''"
      "Some (Config ''explicit'')" None "Predicate ''p''"]
  show ?thesis by auto
qed

subsection \<open>Runs of the examples\<close>

lemma ToLower_examples:
  "ToLower ''Foo'' = ''foo''" "ToLower ''Widget'' = ''widget''"
  by code_simp+

lemmas example_defs =
  env_ok_def env_widget_def env_gvk_fails_def env_watch_fails_def env_nil_webhooks_def
  builder0_def builder1_def manager0_def reconciler0_def foo_type_def pod_type_def
  plain_type_def foo_gvk_def widget_gvk_def
  WithEventFilter_def Watches_def Owns_def For_def ControllerManagedBy_def WithManager_def
  WithConfig_def SimpleController_def

lemmas run_defs =
  Build_def doConfig_def doManager_def doController_def getControllerName_def doWebhook_def
  doWatch_def registerDefaulting_def registerValidating_def partialPath_def Replace_dots_def
  ToLower_examples

theorem doConfig_precedence_witness:
  "config (WithConfig builder1 (Some (Config ''explicit''))) = Some (Config ''explicit'')
   \<and> config (fst (snd (Build env_ok (WithConfig builder1 (Some (Config ''explicit'')))
                          (Some reconciler0)))) = Some (Config ''explicit'')
   \<and> filter is_getConfig (calls (snd (snd (Build env_ok
         (WithConfig builder1 (Some (Config ''explicit''))) (Some reconciler0))))) = []
   \<and> config builder0 = None \<and> mgr builder0 = Some manager0
   \<and> config (fst (snd (Build env_ok builder0 (Some reconciler0)))) = GetConfig manager0
   \<and> filter is_getConfig (calls (snd (snd (Build env_ok builder0 (Some reconciler0))))) = []
   \<and> config builder1 = None \<and> mgr builder1 = None
   \<and> config (fst (snd (Build env_ok builder1 (Some reconciler0)))) = Some (Config ''ambient'')
   \<and> filter is_getConfig (calls (snd (snd (Build env_ok builder1 (Some reconciler0)))))
       = [Call_getConfig]"
proof -
  let ?b = "WithConfig builder1 (Some (Config ''explicit''))"
  let ?R = "\<lambda>b. Build env_ok b (Some reconciler0)"
  have r: "\<And>b. ?R b = (fst (?R b), fst (snd (?R b)), snd (snd (?R b)))" by simp
  have c1: "config ?b = Some (Config ''explicit'')" by (simp add: example_defs)
  have c2: "config builder0 = None \<and> mgr builder0 = Some manager0" by (simp add: example_defs)
  have c3: "config builder1 = None \<and> mgr builder1 = None" by (simp add: example_defs)
  have g: "fst (getConfig env_ok []) = Some (Config ''ambient'')" by (simp add: example_defs)
  from doConfig_precedence [OF r [of ?b]] doConfig_precedence [OF r [of builder0]]
    doConfig_precedence [OF r [of builder1]] c1 c2 c3 g
  show ?thesis by simp
qed

theorem doManager_constructs_witness:
  "mgr builder0 = Some manager0
   \<and> filter is_newManager (calls (snd (snd (Build env_ok builder0 (Some reconciler0))))) = []
   \<and> mgr (fst (snd (Build env_ok builder0 (Some reconciler0)))) = Some manager0
   \<and> mgr builder1 = None
   \<and> doConfig env_ok builder1 [] =
        (None, builder1\<lparr>config := Some (Config ''ambient'')\<rparr>, [(Call_getConfig, None)])
   \<and> filter is_newManager (calls (snd (snd (Build env_ok builder1 (Some reconciler0)))))
       = [Call_newManager (Some (Config ''ambient''))]
   \<and> mgr (fst (snd (Build env_ok builder1 (Some reconciler0)))) =
        Some \<lparr>managerName = ''new'', GetConfig = Some (Config ''ambient''),
              GetScheme = Scheme ''s''\<rparr>"
proof -
  let ?R = "\<lambda>b. Build env_ok b (Some reconciler0)"
  have r: "\<And>b. ?R b = (fst (?R b), fst (snd (?R b)), snd (snd (?R b)))" by simp
  have c0: "mgr builder0 = Some manager0" by (simp add: example_defs)
  have c1: "mgr builder1 = None" by (simp add: example_defs)
  have d: "doConfig env_ok builder1 [] =
        (None, builder1\<lparr>config := Some (Config ''ambient'')\<rparr>, [(Call_getConfig, None)])"
    by (simp add: doConfig_def example_defs)
  have n: "fst (newManager env_ok [(Call_getConfig, None)] (Some (Config ''ambient''))) =
        Some \<lparr>managerName = ''new'', GetConfig = Some (Config ''ambient''),
              GetScheme = Scheme ''s''\<rparr>"
    by (simp add: example_defs)
  from doManager_constructs [OF r [of builder0]] doManager_constructs [OF r [of builder1]]
    c0 c1 d n
  show ?thesis by simp
qed

theorem controller_name_witness:
  "Call_newController ''widget-application'' manager0 reconciler0
     \<in> set (calls (snd (snd (Build env_widget builder0 (Some reconciler0)))))
   \<and> (\<exists>h g. getGvk env_widget h (apiType builder0) (GetScheme manager0) = (g, None)
         \<and> Kind g = ''Widget''
         \<and> ''widget-application'' = ToLower (Kind g) @ ''-application'')"
proof -
  let ?R = "Build env_widget builder0 (Some reconciler0)"
  have r: "?R = (fst ?R, fst (snd ?R), snd (snd ?R))" by simp
  have m: "Call_newController ''widget-application'' manager0 reconciler0
     \<in> set (calls (snd (snd ?R)))"
    by (simp add: run_defs example_defs)
  from controller_name [OF r m] obtain h g where
    "getGvk env_widget h (apiType builder0) (GetScheme manager0) = (g, None)"
    "''widget-application'' = ToLower (Kind g) @ ''-application''"
    by blast
  moreover from this(1) have "Kind g = ''Widget''" by (auto simp: example_defs)
  ultimately show ?thesis using m by blast
qed

subsection \<open>The webhook paths\<close>

lemma Build_webhook_elim [consumes 1, case_names NotReached Failed Resolved]:
  assumes "Build E b (Some rc) = (out, b', t')"
  obtains "filter is_GVKForObject (calls t') = []" "filter is_Register (calls t') = []"
  | h m g e where "mgr b' = Some m"
      "GVKForObject E h (apiType b) (GetScheme m) = (g, Some e)"
      "t' = h @ [(Call_GVKForObject (apiType b) (GetScheme m), Some e)]"
      "filter is_GVKForObject (calls h) = []" "filter is_Register (calls t') = []"
      "filter is_Watch (calls t') = []" "out = Return (None, Some e)"
  | h m g rest where "mgr b' = Some m"
      "GVKForObject E h (apiType b) (GetScheme m) = (g, None)"
      "t' = h @ (Call_GVKForObject (apiType b) (GetScheme m), None) # rest"
      "filter is_Register (calls t') =
         calls (registerDefaulting E b' m g []) @ calls (registerValidating E b' m g [])"
      "apiType b' = apiType b"
      "filter is_GVKForObject (calls h) = []" "filter is_GVKForObject (calls rest) = []"
proof -
  from Build_webhook_calls [OF assms] show thesis
  proof (elim disjE exE conjE)
    assume "filter is_GVKForObject (calls t') = []" "filter is_Register (calls t') = []"
    then show thesis by (rule that(1))
  next
    fix h m g e
    assume "mgr b' = Some m"
      "GVKForObject E h (apiType b) (GetScheme m) = (g, Some e)"
      "t' = h @ [(Call_GVKForObject (apiType b) (GetScheme m), Some e)]"
      "filter is_GVKForObject (calls h) = []" "filter is_Register (calls t') = []"
      "filter is_Watch (calls t') = []" "out = Return (None, Some e)"
    then show thesis by (rule that(2))
  next
    fix h m g rest
    assume "mgr b' = Some m"
      "GVKForObject E h (apiType b) (GetScheme m) = (g, None)"
      "t' = h @ (Call_GVKForObject (apiType b) (GetScheme m), None) # rest"
      "filter is_Register (calls t') =
         calls (registerDefaulting E b' m g []) @ calls (registerValidating E b' m g [])"
      "apiType b' = apiType b"
      "filter is_GVKForObject (calls h) = []" "filter is_GVKForObject (calls rest) = []"
    then show thesis by (rule that(3))
  qed
qed



text \<open>
  C10. Where the builder has a manager and the reconciled type \<open>obj\<close> resolves without
  error, \<open>doWebhook\<close> returns nil whatever the webhook constructors return, and after
  \<open>GVKForObject\<close> it calls \<open>Register\<close> for the mutating path exactly when \<open>obj\<close> implements
  \<open>Defaulter\<close> and \<open>DefaultingWebhookFor\<close> returns a handler, and for the validating path
  exactly when \<open>obj\<close> implements \<open>Validator\<close> and \<open>ValidatingWebhookFor\<close> returns a
  handler; it makes no other call. So a constructor that returns nil leads to no
  registration of that kind, and the step still returns nil.
\<close>

theorem nil_webhook_skipped:
  assumes "mgr blder = Some m" and "apiType blder = Some obj"
    and "GVKForObject E t (Some obj) (GetScheme m) = (g, None)"
  shows "\<exists>d. doWebhook E blder t =
             (Return None, blder, t @ (Call_GVKForObject (Some obj) (GetScheme m), None) # d)
    \<and> calls d =
        (case (implementsDefaulter obj, DefaultingWebhookFor E obj) of
           (True, Some mwh) \<Rightarrow> [Call_Register m (''/mutate-'' @ partialPath g) mwh]
         | _ \<Rightarrow> [])
        @ (case (implementsValidator obj, ValidatingWebhookFor E obj) of
             (True, Some vwh) \<Rightarrow> [Call_Register m (''/validate-'' @ partialPath g) vwh]
           | _ \<Rightarrow> [])
    \<and> (DefaultingWebhookFor E obj = None \<longrightarrow>
          (\<forall>w. Call_Register m (''/mutate-'' @ partialPath g) w \<notin> set (calls d)))
    \<and> (ValidatingWebhookFor E obj = None \<longrightarrow>
          (\<forall>w. Call_Register m (''/validate-'' @ partialPath g) w \<notin> set (calls d)))"
proof -
  let ?d = "registerDefaulting E blder m g [] @ registerValidating E blder m g []"
  have "registerValidating E blder m g
            (registerDefaulting E blder m g (t @ [(Call_GVKForObject (Some obj) (GetScheme m), None)]))
          = t @ (Call_GVKForObject (Some obj) (GetScheme m), None) # ?d"
    using registerValidating_append [of E blder m g
        "registerDefaulting E blder m g (t @ [(Call_GVKForObject (Some obj) (GetScheme m), None)])"]
      registerDefaulting_append [of E blder m g
        "t @ [(Call_GVKForObject (Some obj) (GetScheme m), None)]"]
    by simp
  with assms have run: "doWebhook E blder t =
      (Return None, blder, t @ (Call_GVKForObject (Some obj) (GetScheme m), None) # ?d)"
    by (simp add: doWebhook_def)
  have c: "calls ?d =
        (case (implementsDefaulter obj, DefaultingWebhookFor E obj) of
           (True, Some mwh) \<Rightarrow> [Call_Register m (''/mutate-'' @ partialPath g) mwh]
         | _ \<Rightarrow> [])
        @ (case (implementsValidator obj, ValidatingWebhookFor E obj) of
             (True, Some vwh) \<Rightarrow> [Call_Register m (''/validate-'' @ partialPath g) vwh]
           | _ \<Rightarrow> [])"
    using assms(2) by (simp add: register_calls)
  have nd: "DefaultingWebhookFor E obj = None \<longrightarrow>
          (\<forall>w. Call_Register m (''/mutate-'' @ partialPath g) w \<notin> set (calls ?d))"
    unfolding c by (auto split: bool.splits option.splits)
  have nv: "ValidatingWebhookFor E obj = None \<longrightarrow>
          (\<forall>w. Call_Register m (''/validate-'' @ partialPath g) w \<notin> set (calls ?d))"
    unfolding c by (auto split: bool.splits option.splits)
  show ?thesis
  proof (intro exI conjI)
    show "doWebhook E blder t =
      (Return None, blder, t @ (Call_GVKForObject (Some obj) (GetScheme m), None) # ?d)"
      by (rule run)
  qed (rule c nd nv)+
qed

theorem nil_webhook_skipped_witness:
  "mgr builder0 = Some manager0 \<and> apiType builder0 = Some foo_type
   \<and> implementsDefaulter foo_type \<and> implementsValidator foo_type
   \<and> DefaultingWebhookFor env_nil_webhooks foo_type = None
   \<and> ValidatingWebhookFor env_nil_webhooks foo_type = None
   \<and> GVKForObject env_nil_webhooks [] (Some foo_type) (GetScheme manager0) = (foo_gvk, None)
   \<and> doWebhook env_nil_webhooks builder0 [] =
       (Return None, builder0, [(Call_GVKForObject (Some foo_type) (GetScheme manager0), None)])"
proof -
  have a: "mgr builder0 = Some manager0" "apiType builder0 = Some foo_type"
    by (simp_all add: example_defs)
  have g: "GVKForObject env_nil_webhooks [] (Some foo_type) (GetScheme manager0) = (foo_gvk, None)"
    by (simp add: example_defs)
  have c: "implementsDefaulter foo_type \<and> implementsValidator foo_type
     \<and> DefaultingWebhookFor env_nil_webhooks foo_type = None
     \<and> ValidatingWebhookFor env_nil_webhooks foo_type = None"
    by (simp add: example_defs)
  from nil_webhook_skipped [OF a g] obtain d where
    "doWebhook env_nil_webhooks builder0 [] =
       (Return None, builder0, [] @ (Call_GVKForObject (Some foo_type) (GetScheme manager0), None) # d)"
    "calls d =
        (case (implementsDefaulter foo_type, DefaultingWebhookFor env_nil_webhooks foo_type) of
           (True, Some mwh) \<Rightarrow> [Call_Register manager0 (''/mutate-'' @ partialPath foo_gvk) mwh]
         | _ \<Rightarrow> [])
        @ (case (implementsValidator foo_type, ValidatingWebhookFor env_nil_webhooks foo_type) of
             (True, Some vwh) \<Rightarrow> [Call_Register manager0 (''/validate-'' @ partialPath foo_gvk) vwh]
           | _ \<Rightarrow> [])"
    by blast
  with c have "doWebhook env_nil_webhooks builder0 [] =
       (Return None, builder0, [(Call_GVKForObject (Some foo_type) (GetScheme manager0), None)])"
    by (simp add: calls_def)
  with a g c show ?thesis by simp
qed

subsection \<open>A GVK resolution error in the webhook step\<close>

lemma no_GVKForObject_member:
  assumes "filter is_GVKForObject (calls l) = []"
  shows "(Call_GVKForObject a s, x) \<notin> set l"
proof
  assume "(Call_GVKForObject a s, x) \<in> set l"
  then have "Call_GVKForObject a s \<in> set (calls l)" by (force simp: calls_def)
  then have "Call_GVKForObject a s \<in> set (filter is_GVKForObject (calls l))" by simp
  with assms show False by simp
qed

text \<open>
  C5, as the code has it. A GVK resolution error in the webhook step is not ignored. When
  \<open>GVKForObject\<close> returns an error, \<open>doWebhook\<close> returns that error at once, having
  registered nothing. In a \<open>Build\<close> whose log holds a failed \<open>GVKForObject\<close> call, that
  call is the last one, its error is what the framework returned and what \<open>Build\<close> returns,
  with a nil manager, and the run made no \<open>Register\<close> and no \<open>Watch\<close> call.
\<close>

theorem doWebhook_gvk_error:
  assumes "Build E blder r = (out, b', t')"
    and "(Call_GVKForObject a s, Some e) \<in> set t'"
    and "mgr b0 = Some m0"
    and "GVKForObject E t0 (apiType b0) (GetScheme m0) = (g0, Some e0)"
  shows "doWebhook E b0 t0 =
           (Return (Some e0), b0, t0 @ [(Call_GVKForObject (apiType b0) (GetScheme m0), Some e0)])
    \<and> out = Return (None, Some e)
    \<and> (\<exists>h. t' = h @ [(Call_GVKForObject a s, Some e)] \<and> snd (GVKForObject E h a s) = Some e)
    \<and> filter is_Register (calls t') = []
    \<and> filter is_Watch (calls t') = []"
proof -
  have step: "doWebhook E b0 t0 =
           (Return (Some e0), b0, t0 @ [(Call_GVKForObject (apiType b0) (GetScheme m0), Some e0)])"
    using assms(3,4) by (simp add: doWebhook_def)
  obtain rc where rc: "r = Some rc"
    using assms(1,2) by (cases r) (auto simp: Build_def)
  from assms(1) rc have B: "Build E blder (Some rc) = (out, b', t')" by simp
  from B have rest: "out = Return (None, Some e)
    \<and> (\<exists>h. t' = h @ [(Call_GVKForObject a s, Some e)] \<and> snd (GVKForObject E h a s) = Some e)
    \<and> filter is_Register (calls t') = []
    \<and> filter is_Watch (calls t') = []"
  proof (cases rule: Build_webhook_elim)
    case NotReached
    from no_GVKForObject_member [OF NotReached(1)] assms(2) show ?thesis by blast
  next
    case (Failed h m g e')
    from no_GVKForObject_member [OF Failed(4), of a s "Some e"] assms(2) Failed(3)
    have eq: "a = apiType blder \<and> s = GetScheme m \<and> e = e'" by simp
    have "t' = h @ [(Call_GVKForObject a s, Some e)] \<and> snd (GVKForObject E h a s) = Some e"
      using Failed(2,3) eq by simp
    then have "\<exists>h. t' = h @ [(Call_GVKForObject a s, Some e)]
        \<and> snd (GVKForObject E h a s) = Some e" ..
    with Failed(5,6,7) eq show ?thesis by simp
  next
    case (Resolved h m g rest)
    from no_GVKForObject_member [OF Resolved(6), of a s "Some e"]
      no_GVKForObject_member [OF Resolved(7), of a s "Some e"] assms(2) Resolved(3)
    have False by simp
    then show ?thesis ..
  qed
  from step rest show ?thesis by simp
qed

text \<open>
  The claim C5 fails on this run: \<open>GVKForObject\<close> fails during webhook setup and \<open>Build\<close>
  returns that error instead of succeeding; no webhook is registered and no watch is set.
\<close>

theorem gvk_error_not_ignored:
  "snd (GVKForObject env_gvk_fails
          [(Call_getGvk (Some foo_type) (Scheme ''s''), None),
           (Call_newController ''foo-application'' manager0 reconciler0, None)]
          (Some foo_type) (Scheme ''s'')) = Some (Error ''no kind registered'')
   \<and> fst (Build env_gvk_fails builder0 (Some reconciler0))
       = Return (None, Some (Error ''no kind registered''))
   \<and> snd (snd (Build env_gvk_fails builder0 (Some reconciler0)))
       = [(Call_getGvk (Some foo_type) (Scheme ''s''), None),
          (Call_newController ''foo-application'' manager0 reconciler0, None),
          (Call_GVKForObject (Some foo_type) (Scheme ''s''), Some (Error ''no kind registered''))]"
  by (simp add: run_defs example_defs)

theorem doWebhook_gvk_error_witness:
  "(Call_GVKForObject (Some foo_type) (Scheme ''s''), Some (Error ''no kind registered''))
     \<in> set (snd (snd (Build env_gvk_fails builder0 (Some reconciler0))))
   \<and> mgr builder0 = Some manager0
   \<and> GVKForObject env_gvk_fails [] (apiType builder0) (GetScheme manager0)
       = (\<lparr>Group = [], Version = [], Kind = []\<rparr>, Some (Error ''no kind registered''))
   \<and> doWebhook env_gvk_fails builder0 [] =
       (Return (Some (Error ''no kind registered'')), builder0,
        [(Call_GVKForObject (apiType builder0) (GetScheme manager0),
          Some (Error ''no kind registered''))])
   \<and> fst (Build env_gvk_fails builder0 (Some reconciler0))
       = Return (None, Some (Error ''no kind registered''))
   \<and> filter is_Register (calls (snd (snd (Build env_gvk_fails builder0 (Some reconciler0))))) = []
   \<and> filter is_Watch (calls (snd (snd (Build env_gvk_fails builder0 (Some reconciler0))))) = []"
proof -
  let ?R = "Build env_gvk_fails builder0 (Some reconciler0)"
  have r: "?R = (fst ?R, fst (snd ?R), snd (snd ?R))" by simp
  have m: "(Call_GVKForObject (Some foo_type) (Scheme ''s''), Some (Error ''no kind registered''))
     \<in> set (snd (snd ?R))"
    by (simp add: run_defs example_defs)
  have a: "mgr builder0 = Some manager0" by (simp add: example_defs)
  have g: "GVKForObject env_gvk_fails [] (apiType builder0) (GetScheme manager0)
       = (\<lparr>Group = [], Version = [], Kind = []\<rparr>, Some (Error ''no kind registered''))"
    by (simp add: example_defs)
  from doWebhook_gvk_error [OF r m a g] m a g show ?thesis by simp
qed

end
